theory Spec2Isabelle
  imports Main "HOL-Library.Word" "HOL-Library.Stream" "HOL-Library.Sublist"
begin

section \<open>The serial reader \<^verbatim>\<open>scripts/read_serial.py\<close>\<close>

text \<open>
  The script finds the serial device of a Pico board, opens it and prints every line the
  board sends until it is interrupted or an input/output error occurs. Everything the
  script does beyond computing a value is made explicit here: the file system, the serial
  library, the device and the console are an environment the script queries, the lines on
  the console and the serial handle are a world the script changes, and a raised exception
  is a result value.
\<close>

subsection \<open>Data\<close>

text \<open>
  A Python \<^verbatim>\<open>str\<close> is a sequence of Unicode code points, a \<^verbatim>\<open>bytes\<close> object a sequence of
  octets. \<open>lit\<close> reads an ASCII literal of the source as a \<^verbatim>\<open>str\<close>.
\<close>

type_synonym str = "nat list"

type_synonym byte = "8 word"

definition lit :: "string \<Rightarrow> str" where
  "lit s = map of_char s"

text \<open>
  What a statement of the script can raise: \<^verbatim>\<open>KeyboardInterrupt\<close> and \<^verbatim>\<open>SystemExit\<close>, which
  derive from \<^verbatim>\<open>BaseException\<close> only, and any exception deriving from \<^verbatim>\<open>Exception\<close>
  (\<^verbatim>\<open>serial.SerialException\<close>, \<^verbatim>\<open>OSError\<close>, ...), kept with its message \<^verbatim>\<open>str(e)\<close>.
  \<open>SystemExit\<close> carries the exit status.
\<close>

datatype raised = KeyboardInterrupt | Exception str | SystemExit nat

text \<open>
  One pass through the body of the \<^verbatim>\<open>while\<close> loop makes three calls at most:
  \<^verbatim>\<open>ser.in_waiting\<close> (the number of bytes waiting, or an exception), when that number is
  not zero \<^verbatim>\<open>ser.readline()\<close> (the bytes read, or an exception), and then \<^verbatim>\<open>print(line)\<close>,
  which raises when the console cannot take the line at that moment: \<^verbatim>\<open>UnicodeEncodeError\<close>
  for a character the console cannot encode, \<^verbatim>\<open>BrokenPipeError\<close> or \<^verbatim>\<open>OSError\<close> when the
  output is closed. A \<open>tick\<close> holds the three answers of one pass; \<open>console\<close> tells for
  every line what \<^verbatim>\<open>print\<close> raises on it during the pass (\<open>None\<close>: the line is printed). An
  interrupt delivered during a pass is the answer \<open>KeyboardInterrupt\<close> of the call it cuts
  short.
\<close>

record tick =
  in_waiting :: "raised + nat"
  readline :: "raised + byte list"
  console :: "str \<Rightarrow> raised option"

text \<open>
  The environment of one run: \<open>glob\<close> is the file system as \<^verbatim>\<open>glob.glob\<close> shows it (the
  paths matching a pattern, in the order the library lists them), \<open>Serial\<close> tells whether
  \<^verbatim>\<open>serial.Serial(port, baudrate, timeout=...)\<close> raises, and \<open>device\<close> is what the device
  answers, pass after pass, for as long as the loop may run.
\<close>

record env =
  glob :: "str \<Rightarrow> str list"
  Serial :: "str \<Rightarrow> nat \<Rightarrow> nat \<Rightarrow> raised option"
  device :: "tick stream"

text \<open>
  The world the script acts on: \<open>stdout\<close> has one entry for each call of \<^verbatim>\<open>print\<close> that
  did not raise (its argument; the newline \<^verbatim>\<open>print\<close> adds is left out), \<open>serial_calls\<close> the
  arguments of each call of \<^verbatim>\<open>serial.Serial\<close>, \<open>acquired\<close> and \<open>released\<close> count the serial
  handles opened and closed.
\<close>

record world =
  stdout :: "str list"
  serial_calls :: "(str \<times> nat \<times> nat) list"
  acquired :: nat
  released :: nat

definition world0 :: world where
  "world0 = \<lparr>stdout = [], serial_calls = [], acquired = 0, released = 0\<rparr>"

text \<open>
  \<open>emit s\<close> is what a call of \<^verbatim>\<open>print\<close> that does not raise does to the world. \<open>print c s\<close>
  is the call on a console that answers as \<open>c\<close> says: it raises and leaves the world as it
  was, or it writes the line.
\<close>

definition emit :: "str \<Rightarrow> world \<Rightarrow> world" where
  "emit s w = w\<lparr>stdout := stdout w @ [s]\<rparr>"

definition print :: "(str \<Rightarrow> raised option) \<Rightarrow> str \<Rightarrow> world \<Rightarrow> raised + world" where
  "print c s w = (case c s of Some x \<Rightarrow> Inl x | None \<Rightarrow> Inr (emit s w))"

subsection \<open>Port discovery\<close>

text \<open>
  \<^verbatim>\<open>if ports:\<close> holds for a list that is not empty, and \<^verbatim>\<open>ports[0]\<close> is its first element.
\<close>

definition find_pico_port :: "(str \<Rightarrow> str list) \<Rightarrow> str option" where
  "find_pico_port glob_glob =
     (case glob_glob (lit ''/dev/tty.usbmodem*'') of
        p # _ \<Rightarrow> Some p
      | [] \<Rightarrow>
          (case glob_glob (lit ''/dev/ttyACM*'') of
             p # _ \<Rightarrow> Some p
           | [] \<Rightarrow> None))"

subsection \<open>Decoding and trimming a line\<close>

text \<open>
  Modelled from the spec: \<^verbatim>\<open>bytes.decode('utf-8', errors='ignore')\<close> and \<^verbatim>\<open>str.rstrip()\<close> are
  built-ins of the Python interpreter, not code of the repository. The spec has the
  line decoded permissively, "invalid bytes dropped rather than failing", and then
  "strip trailing whitespace". The decoder below follows the interpreter's UTF-8 decoder:
  \<open>utf8_decode\<close> looks at the head of the input and either yields a code point and the
  number of bytes it took, or the number of bytes the error covers (an invalid start
  byte, the bytes before an invalid continuation byte, or a sequence cut off by the end
  of the input); overlong forms, surrogates and code points above \<open>0x10FFFF\<close> are errors.
  With \<^verbatim>\<open>errors='ignore'\<close> the bytes of an error are skipped and decoding goes on behind them.
\<close>

datatype decoded = Char nat nat | Invalid nat

definition IS_CONTINUATION_BYTE :: "byte \<Rightarrow> bool" where
  "IS_CONTINUATION_BYTE ch \<longleftrightarrow> 0x80 \<le> ch \<and> ch < 0xC0"

fun utf8_decode :: "byte \<Rightarrow> byte list \<Rightarrow> decoded" where
  "utf8_decode ch s =
     (if ch < 0x80 then Char (unat ch) 1
      else if ch < 0xE0 then
        (if ch < 0xC2 then Invalid 1
         else case s of
           [] \<Rightarrow> Invalid 1
         | ch2 # _ \<Rightarrow>
             if \<not> IS_CONTINUATION_BYTE ch2 then Invalid 1
             else Char (unat ch * 64 + unat ch2 - (0xC0 * 64 + 0x80)) 2)
      else if ch < 0xF0 then
        (case s of
           [] \<Rightarrow> Invalid 1
         | [ch2] \<Rightarrow>
             if \<not> IS_CONTINUATION_BYTE ch2 \<or> (if ch2 < 0xA0 then ch = 0xE0 else ch = 0xED)
             then Invalid 1 else Invalid 2
         | ch2 # ch3 # _ \<Rightarrow>
             if \<not> IS_CONTINUATION_BYTE ch2 then Invalid 1
             else if ch = 0xE0 \<and> ch2 < 0xA0 then Invalid 1
             else if ch = 0xED \<and> 0xA0 \<le> ch2 then Invalid 1
             else if \<not> IS_CONTINUATION_BYTE ch3 then Invalid 2
             else Char (unat ch * 4096 + unat ch2 * 64 + unat ch3
                        - (0xE0 * 4096 + 0x80 * 64 + 0x80)) 3)
      else if ch < 0xF5 then
        (case s of
           [] \<Rightarrow> Invalid 1
         | [ch2] \<Rightarrow>
             if \<not> IS_CONTINUATION_BYTE ch2 \<or> (if ch2 < 0x90 then ch = 0xF0 else ch = 0xF4)
             then Invalid 1 else Invalid 2
         | [ch2, ch3] \<Rightarrow>
             if \<not> IS_CONTINUATION_BYTE ch2 \<or> (if ch2 < 0x90 then ch = 0xF0 else ch = 0xF4)
             then Invalid 1
             else if \<not> IS_CONTINUATION_BYTE ch3 then Invalid 2 else Invalid 3
         | ch2 # ch3 # ch4 # _ \<Rightarrow>
             if \<not> IS_CONTINUATION_BYTE ch2 then Invalid 1
             else if ch = 0xF0 \<and> ch2 < 0x90 then Invalid 1
             else if ch = 0xF4 \<and> 0x90 \<le> ch2 then Invalid 1
             else if \<not> IS_CONTINUATION_BYTE ch3 then Invalid 2
             else if \<not> IS_CONTINUATION_BYTE ch4 then Invalid 3
             else Char (unat ch * 262144 + unat ch2 * 4096 + unat ch3 * 64 + unat ch4
                        - (0xF0 * 262144 + 0x80 * 4096 + 0x80 * 64 + 0x80)) 4)
      else Invalid 1)"

declare utf8_decode.simps [simp del]

text \<open>
  Modelled from the spec: \<^verbatim>\<open>bytes.decode('utf-8', errors='ignore')\<close>, the built-in that the
  spec describes as "decode permissively (invalid bytes dropped rather than failing)". It
  returns a string for every input; there is no error result. Every step takes at least
  the byte \<open>ch\<close> off the input, which is why the decoder ends.
\<close>

function decode_ignore :: "byte list \<Rightarrow> str" where
  "decode_ignore [] = []"
| "decode_ignore (ch # s) =
     (case utf8_decode ch s of
        Char c n \<Rightarrow> c # decode_ignore (drop (n - 1) s)
      | Invalid n \<Rightarrow> decode_ignore (drop (n - 1) s))"
  by pat_completeness auto
termination
  by (relation "measure length") auto

text \<open>
  Modelled from the spec: \<^verbatim>\<open>str.rstrip()\<close>, the built-in behind "strip trailing whitespace".
  \<open>isspace\<close> is \<^verbatim>\<open>str.isspace\<close> for one code point: the characters of bidirectional type
  WS, B or S and of category Zs. \<^verbatim>\<open>rstrip()\<close> without an argument removes the longest run
  of them at the end of the string.
\<close>

definition isspace :: "nat \<Rightarrow> bool" where
  "isspace c \<longleftrightarrow>
     (0x09 \<le> c \<and> c \<le> 0x0D) \<or> (0x1C \<le> c \<and> c \<le> 0x20) \<or> c = 0x85 \<or> c = 0xA0 \<or>
     c = 0x1680 \<or> (0x2000 \<le> c \<and> c \<le> 0x200A) \<or> c = 0x2028 \<or> c = 0x2029 \<or>
     c = 0x202F \<or> c = 0x205F \<or> c = 0x3000"

definition rstrip :: "str \<Rightarrow> str" where
  "rstrip s = rev (dropWhile isspace (rev s))"

subsection \<open>The read loop\<close>

text \<open>
  The body of the loop:
  \<^verbatim>\<open>if ser.in_waiting: line = ser.readline().decode('utf-8', errors='ignore').rstrip(); print(line)\<close>.
  Each of the three calls may raise, which ends the pass and leaves the world as it was;
  otherwise the pass falls through to the next one.
\<close>

definition loop_body :: "tick \<Rightarrow> world \<Rightarrow> (raised + unit) \<times> world" where
  "loop_body t w =
     (case in_waiting t of
        Inl e \<Rightarrow> (Inl e, w)
      | Inr n \<Rightarrow>
          if n \<noteq> 0 then
            (case readline t of
               Inl e \<Rightarrow> (Inl e, w)
             | Inr bs \<Rightarrow>
                 (case print (console t) (rstrip (decode_ignore bs)) w of
                    Inl e \<Rightarrow> (Inl e, w)
                  | Inr w' \<Rightarrow> (Inr (), w')))
          else (Inr (), w))"

text \<open>
  A \<^verbatim>\<open>while\<close> loop may run forever, so it is run for a number of passes: the first
  component of the result is \<open>None\<close> when the loop is still running after \<open>n\<close> passes (the
  world is the world at that moment), \<open>Some (Inl e)\<close> when a pass raised \<open>e\<close>, and
  \<open>Some (Inr ())\<close> when the loop ended by itself because its condition failed. The loop of
  the script is \<^verbatim>\<open>while True:\<close>, and its body has no \<^verbatim>\<open>break\<close>.
\<close>

fun while_loop ::
  "(world \<Rightarrow> bool) \<Rightarrow> (tick \<Rightarrow> world \<Rightarrow> (raised + unit) \<times> world) \<Rightarrow> nat \<Rightarrow> tick stream \<Rightarrow>
   world \<Rightarrow> (raised + unit) option \<times> world" where
  "while_loop cond body 0 ticks w = (None, w)"
| "while_loop cond body (Suc n) ticks w =
     (if cond w then
        (case body (shd ticks) w of
           (Inl e, w') \<Rightarrow> (Some (Inl e), w')
         | (Inr _, w') \<Rightarrow> while_loop cond body n (stl ticks) w')
      else (Some (Inr ()), w))"

definition read_loop :: "nat \<Rightarrow> tick stream \<Rightarrow> world \<Rightarrow> (raised + unit) option \<times> world" where
  "read_loop = while_loop (\<lambda>w. True) loop_body"

subsection \<open>The main routine\<close>

text \<open>
  \<^verbatim>\<open>with serial.Serial(port, baudrate, timeout=timeout) as ser: body\<close>. The constructor
  opens the port or raises; once the port is open, leaving the block closes it, whether
  the body ends or raises. While the body is still running nothing is closed.
\<close>

definition with_Serial ::
  "env \<Rightarrow> str \<Rightarrow> nat \<Rightarrow> nat \<Rightarrow> (world \<Rightarrow> (raised + unit) option \<times> world) \<Rightarrow> world \<Rightarrow>
   (raised + unit) option \<times> world" where
  "with_Serial e port baudrate timeout body w =
     (let w1 = w\<lparr>serial_calls := serial_calls w @ [(port, baudrate, timeout)]\<rparr> in
      case Serial e port baudrate timeout of
        Some x \<Rightarrow> (Some (Inl x), w1)
      | None \<Rightarrow>
          (case body (w1\<lparr>acquired := Suc (acquired w1)\<rparr>) of
             (None, w2) \<Rightarrow> (None, w2)
           | (Some r, w2) \<Rightarrow> (Some r, w2\<lparr>released := Suc (released w2)\<rparr>)))"

text \<open>
  The two handlers of the \<^verbatim>\<open>try\<close> statement, in the order of the source. Anything else
  that was raised (a \<open>SystemExit\<close>) is not caught. The lines \<open>main\<close> prints outside the loop
  (the error for a missing board, the banner and the closing line of a handler) are
  written as they are: for these calls the console is taken to work.
\<close>

fun try_except :: "(raised + unit) option \<times> world \<Rightarrow> (raised + unit) option \<times> world" where
  "try_except (Some (Inl KeyboardInterrupt), w) =
     (Some (Inr ()), emit ([10, 10] @ lit ''Exiting...'') w)"
| "try_except (Some (Inl (Exception msg)), w) =
     (Some (Inr ()), emit (lit ''Error: '' @ msg) w)"
| "try_except (r, w) = (r, w)"

text \<open>
  \<^verbatim>\<open>if not port:\<close> holds for \<^verbatim>\<open>None\<close> and for the empty string. \<^verbatim>\<open>sys.exit(1)\<close> raises
  \<^verbatim>\<open>SystemExit(1)\<close> outside the \<^verbatim>\<open>try\<close> statement, so it leaves \<open>main\<close>. The first
  component of the result is \<open>None\<close> while \<open>main\<close> is still running after \<open>n\<close> passes of
  the loop, \<open>Some (Inr ())\<close> when \<open>main\<close> has returned and \<open>Some (Inl e)\<close> when it has raised.
\<close>

definition not_found :: "(raised + unit) option \<times> world" where
  "not_found =
     (Some (Inl (SystemExit 1)), emit (lit ''Error: Pico serial port not found'') world0)"

definition main :: "nat \<Rightarrow> env \<Rightarrow> (raised + unit) option \<times> world" where
  "main n e =
     (case find_pico_port (glob e) of
        None \<Rightarrow> not_found
      | Some port \<Rightarrow>
          if port = [] then not_found
          else
            let w1 = emit (lit ''Reading from '' @ port @ lit '' @ 115200 baud'') world0;
                w2 = emit (lit ''Press Ctrl+C to exit'' @ [10]) w1;
                w3 = emit (replicate 50 (of_char CHR ''-'')) w2
            in try_except (with_Serial e port 115200 1 (read_loop n (device e)) w3))"

subsection \<open>Notions used to state the properties\<close>

text \<open>
  What one pass of the loop raises, if anything, and the lines it prints: read off the
  three answers of the pass, in the order the body asks for them. A pass raises what
  \<^verbatim>\<open>in_waiting\<close> raises, else what \<^verbatim>\<open>readline\<close> raises, else what \<^verbatim>\<open>print\<close> raises on the line.
\<close>

definition raises :: "tick \<Rightarrow> raised option" where
  "raises t =
     (case in_waiting t of
        Inl e \<Rightarrow> Some e
      | Inr n \<Rightarrow>
          if n \<noteq> 0 then
            (case readline t of
               Inl e \<Rightarrow> Some e
             | Inr bs \<Rightarrow> console t (rstrip (decode_ignore bs)))
          else None)"

definition printed :: "tick \<Rightarrow> str list" where
  "printed t =
     (case in_waiting t of
        Inl _ \<Rightarrow> []
      | Inr n \<Rightarrow>
          if n \<noteq> 0 then
            (case readline t of
               Inl _ \<Rightarrow> []
             | Inr bs \<Rightarrow>
                 (case console t (rstrip (decode_ignore bs)) of
                    Some _ \<Rightarrow> []
                  | None \<Rightarrow> [rstrip (decode_ignore bs)]))
          else [])"

text \<open>The three lines \<open>main\<close> prints before it opens the port.\<close>

definition banner :: "str \<Rightarrow> str list" where
  "banner port =
     [lit ''Reading from '' @ port @ lit '' @ 115200 baud'',
      lit ''Press Ctrl+C to exit'' @ [10],
      replicate 50 (of_char CHR ''-'')]"

text \<open>
  The strict decoder (\<^verbatim>\<open>errors='strict'\<close>) stops at the first error with \<open>None\<close>, where
  Python raises \<^verbatim>\<open>UnicodeDecodeError\<close>. \<open>kept\<close> is the input without the bytes that
  \<open>decode_ignore\<close> skips.
\<close>

function utf8_strict :: "byte list \<Rightarrow> str option" where
  "utf8_strict [] = Some []"
| "utf8_strict (ch # s) =
     (case utf8_decode ch s of
        Char c n \<Rightarrow> map_option ((#) c) (utf8_strict (drop (n - 1) s))
      | Invalid n \<Rightarrow> None)"
  by pat_completeness auto
termination
  by (relation "measure length") auto

function kept :: "byte list \<Rightarrow> byte list" where
  "kept [] = []"
| "kept (ch # s) =
     (case utf8_decode ch s of
        Char c n \<Rightarrow> ch # take (n - 1) s @ kept (drop (n - 1) s)
      | Invalid n \<Rightarrow> kept (drop (n - 1) s))"
  by pat_completeness auto
termination
  by (relation "measure length") auto

subsection \<open>Example environments\<close>

text \<open>
  Two consoles: a terminal that takes every line, and one with the encoding ASCII, on
  which \<^verbatim>\<open>print\<close> raises \<^verbatim>\<open>UnicodeEncodeError\<close> for a line with any other character.
\<close>

definition terminal :: "str \<Rightarrow> raised option" where
  "terminal s = None"

definition ascii_console :: "str \<Rightarrow> raised option" where
  "ascii_console s =
     (if list_all (\<lambda>c. c < 128) s then None
      else Some (Exception (lit ''ascii codec cannot encode character'')))"

text \<open>
  On the terminal: a device that never has anything to say, a pass that reads the given
  bytes, a pass cut short by \<^verbatim>\<open>Ctrl+C\<close>, and a pass whose read fails. On the ASCII console:
  a pass that reads the given bytes.
\<close>

definition idle :: tick where
  "idle = \<lparr>in_waiting = Inr 0, readline = Inr [], console = terminal\<rparr>"

definition sends :: "byte list \<Rightarrow> tick" where
  "sends bs = \<lparr>in_waiting = Inr (length bs), readline = Inr bs, console = terminal\<rparr>"

definition interrupted :: tick where
  "interrupted = \<lparr>in_waiting = Inl KeyboardInterrupt, readline = Inr [], console = terminal\<rparr>"

definition unplugged :: tick where
  "unplugged =
     \<lparr>in_waiting = Inr 1, readline = Inl (Exception (lit ''device disconnected'')),
      console = terminal\<rparr>"

definition sends_ascii :: "byte list \<Rightarrow> tick" where
  "sends_ascii bs = \<lparr>in_waiting = Inr (length bs), readline = Inr bs, console = ascii_console\<rparr>"

text \<open>The line \<^verbatim>\<open>caf\<close> followed by \<open>U+00E9\<close>, in UTF-8, with its line end.\<close>

definition cafe :: "byte list" where
  "cafe = [0x63, 0x61, 0x66, 0xC3, 0xA9, 0x0A]"

text \<open>
  File systems: a Mac with two boards (and a Linux-style node besides), a Linux machine
  with one board, and a machine with none.
\<close>

definition fs_mac :: "str \<Rightarrow> str list" where
  "fs_mac pat =
     (if pat = lit ''/dev/tty.usbmodem*'' then [lit ''/dev/tty.usbmodem101'', lit ''/dev/tty.usbmodem102'']
      else if pat = lit ''/dev/ttyACM*'' then [lit ''/dev/ttyACM7'']
      else [])"

definition fs_linux :: "str \<Rightarrow> str list" where
  "fs_linux pat = (if pat = lit ''/dev/ttyACM*'' then [lit ''/dev/ttyACM0''] else [])"

definition fs_none :: "str \<Rightarrow> str list" where
  "fs_none pat = []"

text \<open>The Linux machine with a USB-serial adapter plugged in, which no pattern of the script covers.\<close>

definition fs_usb :: "str \<Rightarrow> str list" where
  "fs_usb pat = (if pat = lit ''/dev/ttyUSB*'' then [lit ''/dev/ttyUSB0''] else fs_linux pat)"

text \<open>
  A run on the Linux machine: the board sends \<^verbatim>\<open>"Hi \r\n"\<close>, is silent for a pass, sends a
  line of blanks, and then the given pass happens; after it the device stays idle.
\<close>

definition session :: "tick \<Rightarrow> env" where
  "session t =
     \<lparr>glob = fs_linux, Serial = (\<lambda>port baudrate timeout. None),
      device = sends [0x48, 0x69, 0x20, 0x0D, 0x0A] ## idle ## sends [0x20, 0x0A] ## t ## sconst idle\<rparr>"

definition busy :: env where
  "busy =
     \<lparr>glob = fs_linux,
      Serial = (\<lambda>port baudrate timeout. Some (Exception (lit ''Resource busy''))),
      device = sconst idle\<rparr>"


definition garbled :: "byte list" where
  "garbled = [0x48, 0xFF, 0x69, 0x20, 0x0A]"

definition no_board :: env where
  "no_board = \<lparr>glob = fs_none, Serial = (\<lambda>port baudrate timeout. None), device = sconst idle\<rparr>"

section \<open>Properties\<close>

subsection \<open>The read loop, pass by pass\<close>

text \<open>
  The loop of the script, unfolded: the condition \<^verbatim>\<open>True\<close> holds in every world.
\<close>

lemma read_loop_simps [simp]:
  "read_loop 0 ticks w = (None, w)"
  "read_loop (Suc n) ticks w =
     (case loop_body (shd ticks) w of
        (Inl e, w') \<Rightarrow> (Some (Inl e), w')
      | (Inr u, w') \<Rightarrow> read_loop n (stl ticks) w')"
  unfolding read_loop_def by simp_all

text \<open>
  A pass either raises and leaves the world alone, or prints its lines and falls through.
  So the loop is still running after \<open>n\<close> passes exactly when none of them raised, and it
  ends at the first pass that raises, with what the passes before it printed.
\<close>

lemma loop_body_eq:
  "loop_body t w =
     (case raises t of
        Some e \<Rightarrow> (Inl e, w)
      | None \<Rightarrow> (Inr (), w\<lparr>stdout := stdout w @ printed t\<rparr>))"
  by (simp add: loop_body_def raises_def printed_def print_def emit_def
      split: sum.splits option.splits)

lemma read_loop_running:
  "(\<And>i. i < n \<Longrightarrow> raises (ticks !! i) = None) \<Longrightarrow>
   read_loop n ticks w = (None, w\<lparr>stdout := stdout w @ concat (map printed (stake n ticks))\<rparr>)"
proof (induction n arbitrary: ticks w)
  case 0
  show ?case by simp
next
  case (Suc n)
  have h: "raises (shd ticks) = None"
    using Suc.prems [of 0] by simp
  have t: "\<And>i. i < n \<Longrightarrow> raises (stl ticks !! i) = None"
    using Suc.prems [of "Suc i" for i] by simp
  show ?case
    by (simp add: loop_body_eq h Suc.IH [OF t])
qed

lemma read_loop_raised:
  "(\<And>i. i < k \<Longrightarrow> raises (ticks !! i) = None) \<Longrightarrow> raises (ticks !! k) = Some e \<Longrightarrow> k < n \<Longrightarrow>
   read_loop n ticks w =
     (Some (Inl e), w\<lparr>stdout := stdout w @ concat (map printed (stake k ticks))\<rparr>)"
proof (induction k arbitrary: ticks w n)
  case 0
  then obtain m where n: "n = Suc m" by (cases n) auto
  show ?case using "0.prems"(2) by (simp add: n loop_body_eq)
next
  case (Suc k)
  then obtain m where n: "n = Suc m" and m: "k < m" by (cases n) auto
  have h: "raises (shd ticks) = None"
    using Suc.prems(1) [of 0] by simp
  have t: "\<And>i. i < k \<Longrightarrow> raises (stl ticks !! i) = None"
    using Suc.prems(1) [of "Suc i" for i] by simp
  have r: "raises (stl ticks !! k) = Some e"
    using Suc.prems(2) by simp
  show ?case
    by (simp add: n loop_body_eq h Suc.IH [OF t r m])
qed

lemma read_loop_cases:
  "(fst (read_loop n ticks w) = None \<and> (\<forall>i<n. raises (ticks !! i) = None)) \<or>
   (\<exists>k<n. \<exists>e. fst (read_loop n ticks w) = Some (Inl e) \<and> raises (ticks !! k) = Some e \<and>
      (\<forall>i<k. raises (ticks !! i) = None))"
proof (cases "\<forall>i<n. raises (ticks !! i) = None")
  case True
  then show ?thesis by (simp add: read_loop_running)
next
  case False
  define k where "k = (LEAST i. raises (ticks !! i) \<noteq> None)"
  from False obtain j where j: "j < n" "raises (ticks !! j) \<noteq> None" by auto
  have k1: "raises (ticks !! k) \<noteq> None"
    unfolding k_def using j(2) by (rule LeastI)
  have k2: "\<And>i. i < k \<Longrightarrow> raises (ticks !! i) = None"
    unfolding k_def using not_less_Least by blast
  have k3: "k < n"
    using j k2 [of j] by (meson not_less less_le_trans leI le_less_trans)
  from k1 obtain e where e: "raises (ticks !! k) = Some e" by auto
  show ?thesis
    using read_loop_raised [OF k2 e k3, of w] e k2 k3 by auto
qed

lemma loop_body_line:
  "in_waiting t = Inr k \<Longrightarrow> k \<noteq> 0 \<Longrightarrow> readline t = Inr bs \<Longrightarrow>
   loop_body t w =
     (case console t (rstrip (decode_ignore bs)) of
        Some x \<Rightarrow> (Inl x, w)
      | None \<Rightarrow> (Inr (), emit (rstrip (decode_ignore bs)) w))"
  by (simp add: loop_body_def print_def split: option.splits)

lemma read_loop_world: "\<exists>ls. snd (read_loop n ticks w) = w\<lparr>stdout := stdout w @ ls\<rparr>"
proof (induction n arbitrary: ticks w)
  case 0
  show ?case by (rule exI [of _ "[]"]) simp
next
  case (Suc n)
  show ?case
  proof (cases "raises (shd ticks)")
    case None
    obtain ls where "snd (read_loop n (stl ticks) (w\<lparr>stdout := stdout w @ printed (shd ticks)\<rparr>)) =
        w\<lparr>stdout := stdout w @ printed (shd ticks) @ ls\<rparr>"
      using Suc.IH [of "stl ticks" "w\<lparr>stdout := stdout w @ printed (shd ticks)\<rparr>"] by auto
    then have "snd (read_loop (Suc n) ticks w) = w\<lparr>stdout := stdout w @ (printed (shd ticks) @ ls)\<rparr>"
      by (simp add: loop_body_eq None)
    then show ?thesis by (rule exI)
  next
    case (Some x)
    then show ?thesis by (simp add: loop_body_eq exI [of _ "[]"])
  qed
qed

subsection \<open>The decoder and the trimming\<close>

text \<open>
  A step that yields a code point looks at the bytes it takes and at nothing behind them.
  Hence the bytes \<open>decode_ignore\<close> keeps are a subsequence of the input that the strict
  decoder accepts, with the same result; and on an input the strict decoder accepts
  nothing is skipped.
\<close>

lemma utf8_decode_Char:
  assumes "utf8_decode ch s = Char c n"
  shows "1 \<le> n \<and> n - 1 \<le> length s \<and> utf8_decode ch (take (n - 1) s @ r) = Char c n"
  using assms
  by (auto simp: utf8_decode.simps split: if_splits list.splits)

lemma kept_subseq: "subseq (kept bs) bs"
proof (induction bs rule: kept.induct)
  case 1
  show ?case by simp
next
  case (2 ch s)
  show ?case
  proof (cases "utf8_decode ch s")
    case (Char c n)
    have "subseq (take (n - 1) s @ kept (drop (n - 1) s)) (take (n - 1) s @ drop (n - 1) s)"
      using "2.IH"(1) [OF Char] by (simp only: subseq_append')
    then show ?thesis using Char by simp
  next
    case (Invalid n)
    have "subseq (kept (drop (n - 1) s)) (take (n - 1) s @ drop (n - 1) s)"
      using "2.IH"(2) [OF Invalid] by (rule list_emb_append2)
    then have "subseq (kept (drop (n - 1) s)) (ch # s)"
      by (simp only: append_take_drop_id list_emb_Cons)
    then show ?thesis using Invalid by simp
  qed
qed

lemma utf8_strict_kept: "utf8_strict (kept bs) = Some (decode_ignore bs)"
proof (induction bs rule: kept.induct)
  case 1
  show ?case by simp
next
  case (2 ch s)
  show ?case
  proof (cases "utf8_decode ch s")
    case (Char c n)
    note d = utf8_decode_Char [OF Char, of "kept (drop (n - 1) s)"]
    show ?thesis
      using Char d "2.IH"(1) [OF Char] by simp
  next
    case (Invalid n)
    then show ?thesis using "2.IH"(2) [OF Invalid] by simp
  qed
qed

lemma utf8_strict_decode_ignore: "utf8_strict bs = Some cs \<Longrightarrow> decode_ignore bs = cs \<and> kept bs = bs"
proof (induction bs arbitrary: cs rule: kept.induct)
  case 1
  then show ?case by simp
next
  case (2 ch s)
  show ?case
  proof (cases "utf8_decode ch s")
    case (Char c n)
    then show ?thesis
      using "2.prems" "2.IH"(1) [OF Char] by auto
  next
    case (Invalid n)
    then show ?thesis using "2.prems" by simp
  qed
qed

lemma decode_ignore_ascii: "(\<And>b. b \<in> set bs \<Longrightarrow> b < 0x80) \<Longrightarrow> decode_ignore bs = map unat bs"
proof (induction bs)
  case Nil
  show ?case by simp
next
  case (Cons b bs)
  have "utf8_decode b bs = Char (unat b) 1"
    using Cons.prems [of b] by (simp add: utf8_decode.simps)
  then show ?case using Cons by simp
qed

lemma rstrip_split: "s = rstrip s @ rev (takeWhile isspace (rev s))"
proof -
  have "rev (rev s) = rev (takeWhile isspace (rev s) @ dropWhile isspace (rev s))"
    by (simp only: takeWhile_dropWhile_id)
  then show ?thesis by (simp only: rev_append rev_rev_ident rstrip_def)
qed

lemma rstrip_tail_space: "c \<in> set (rev (takeWhile isspace (rev s))) \<Longrightarrow> isspace c"
  by (auto dest: set_takeWhileD)

lemma rstrip_last: "rstrip s \<noteq> [] \<Longrightarrow> \<not> isspace (last (rstrip s))"
  by (simp add: rstrip_def last_rev hd_dropWhile)

lemma rstrip_keeps_front: "\<not> isspace c \<Longrightarrow> rstrip (xs @ c # ys) = xs @ rstrip (c # ys)"
  by (simp add: rstrip_def dropWhile_append3)

lemma rstrip_idem: "rstrip (rstrip s) = rstrip s"
  by (metis rstrip_def rev_rev_ident dropWhile_idem)


text \<open>
  \<open>rstrip\<close> cuts a run of whitespace off the end and nothing else: what is left does not
  end in whitespace, and everything up to a character that is not whitespace stays.
\<close>

lemma rstrip_all_space: "rstrip s = [] \<longleftrightarrow> (\<forall>c\<in>set s. isspace c)"
  by (simp add: rstrip_def dropWhile_eq_Nil_conv)

lemma rstrip_leading:
  assumes "rstrip s \<noteq> []"
  shows "takeWhile isspace (rstrip s) = takeWhile isspace s"
proof -
  have "last (rstrip s) \<in> set (rstrip s)" using assms by simp
  moreover have "\<not> isspace (last (rstrip s))" using assms by (rule rstrip_last)
  ultimately have "takeWhile isspace (rstrip s @ rev (takeWhile isspace (rev s))) =
      takeWhile isspace (rstrip s)"
    by (rule takeWhile_append1)
  then show ?thesis using rstrip_split [of s] by simp
qed

subsection \<open>The main routine, case by case\<close>

lemma main_found:
  "find_pico_port (glob e) = Some port \<Longrightarrow> port \<noteq> [] \<Longrightarrow>
   main n e =
     try_except (with_Serial e port 115200 1 (read_loop n (device e)) (world0\<lparr>stdout := banner port\<rparr>))"
  by (simp add: main_def banner_def emit_def world0_def)

lemma main_missing:
  "find_pico_port (glob e) = None \<or> find_pico_port (glob e) = Some [] \<Longrightarrow>
   main n e =
     (Some (Inl (SystemExit 1)), world0\<lparr>stdout := [lit ''Error: Pico serial port not found'']\<rparr>)"
  by (auto simp: main_def not_found_def emit_def world0_def)

lemma main_open_fails:
  "find_pico_port (glob e) = Some port \<Longrightarrow> port \<noteq> [] \<Longrightarrow> Serial e port 115200 1 = Some x \<Longrightarrow>
   main n e =
     try_except (Some (Inl x),
       world0\<lparr>stdout := banner port, serial_calls := [(port, 115200, 1)]\<rparr>)"
  by (simp add: main_found with_Serial_def world0_def)

lemma main_running:
  "find_pico_port (glob e) = Some port \<Longrightarrow> port \<noteq> [] \<Longrightarrow> Serial e port 115200 1 = None \<Longrightarrow>
   (\<And>i. i < n \<Longrightarrow> raises (device e !! i) = None) \<Longrightarrow>
   main n e =
     (None, \<lparr>stdout = banner port @ concat (map printed (stake n (device e))),
             serial_calls = [(port, 115200, 1)], acquired = 1, released = 0\<rparr>)"
  by (simp add: main_found with_Serial_def world0_def read_loop_running)

lemma main_raised:
  assumes "find_pico_port (glob e) = Some port" "port \<noteq> []" "Serial e port 115200 1 = None"
    and quiet: "\<And>i. i < k \<Longrightarrow> raises (device e !! i) = None"
    and raised: "raises (device e !! k) = Some x" and "k < n"
  shows "main n e =
     try_except (Some (Inl x),
       \<lparr>stdout = banner port @ concat (map printed (stake k (device e))),
        serial_calls = [(port, 115200, 1)], acquired = 1, released = 1\<rparr>)"
proof -
  note loop = read_loop_raised [of k "device e" x n, OF quiet raised \<open>k < n\<close>]
  show ?thesis
    using assms(1-3) by (simp add: main_found with_Serial_def world0_def loop)
qed

lemma try_except_fst: "fst (try_except (r, w)) = None \<longleftrightarrow> r = None"
  by (cases "(r, w)" rule: try_except.cases) auto

lemma try_except_world:
  "serial_calls (snd (try_except (r, w))) = serial_calls w \<and>
   acquired (snd (try_except (r, w))) = acquired w \<and>
   released (snd (try_except (r, w))) = released w"
  by (cases "(r, w)" rule: try_except.cases) (auto simp: emit_def)

text \<open>
  In every case the handle counters and the record of calls are as follows: while \<open>main\<close>
  runs it holds one open handle, once it has ended every handle it opened is closed, and
  \<^verbatim>\<open>serial.Serial\<close> has been called at most once, with the port found.
\<close>

lemma main_world:
  "fst (main n e) = None \<longrightarrow> acquired (snd (main n e)) = 1 \<and> released (snd (main n e)) = 0"
  "fst (main n e) \<noteq> None \<longrightarrow> released (snd (main n e)) = acquired (snd (main n e))"
  "serial_calls (snd (main n e)) = [] \<or>
   (\<exists>port. find_pico_port (glob e) = Some port \<and>
      serial_calls (snd (main n e)) = [(port, 115200, 1)])"
  "acquired (snd (main n e)) \<le> length (serial_calls (snd (main n e)))"
proof -
  consider (missing) "find_pico_port (glob e) = None \<or> find_pico_port (glob e) = Some []"
    | (busy) port x where "find_pico_port (glob e) = Some port" "port \<noteq> []"
        "Serial e port 115200 1 = Some x"
    | (running) port where "find_pico_port (glob e) = Some port" "port \<noteq> []"
        "Serial e port 115200 1 = None" "\<forall>i<n. raises (device e !! i) = None"
    | (raised) port k x where "find_pico_port (glob e) = Some port" "port \<noteq> []"
        "Serial e port 115200 1 = None" "k < n" "raises (device e !! k) = Some x"
        "\<forall>i<k. raises (device e !! i) = None"
    using read_loop_cases [of n "device e" world0]
    by (cases "find_pico_port (glob e)"; cases "Serial e (the (find_pico_port (glob e))) 115200 1")
      (auto, blast)
  then have "(fst (main n e) = None \<longrightarrow> acquired (snd (main n e)) = 1 \<and> released (snd (main n e)) = 0) \<and>
    (fst (main n e) \<noteq> None \<longrightarrow> released (snd (main n e)) = acquired (snd (main n e))) \<and>
    (serial_calls (snd (main n e)) = [] \<or>
     (\<exists>port. find_pico_port (glob e) = Some port \<and>
        serial_calls (snd (main n e)) = [(port, 115200, 1)])) \<and>
    acquired (snd (main n e)) \<le> length (serial_calls (snd (main n e)))"
  proof cases
    case missing
    then show ?thesis by (simp add: main_missing world0_def)
  next
    case busy
    show ?thesis
      by (simp add: main_open_fails [OF busy] try_except_fst try_except_world busy(1) world0_def)
  next
    case running
    then show ?thesis by (simp add: main_running)
  next
    case raised
    have q: "\<And>i. i < k \<Longrightarrow> raises (device e !! i) = None" using raised(6) by simp
    show ?thesis
      by (simp add: main_raised [OF raised(1-3) q raised(5,4)] try_except_fst try_except_world raised(1))
  qed
  then show
    "fst (main n e) = None \<longrightarrow> acquired (snd (main n e)) = 1 \<and> released (snd (main n e)) = 0"
    "fst (main n e) \<noteq> None \<longrightarrow> released (snd (main n e)) = acquired (snd (main n e))"
    "serial_calls (snd (main n e)) = [] \<or>
     (\<exists>port. find_pico_port (glob e) = Some port \<and>
        serial_calls (snd (main n e)) = [(port, 115200, 1)])"
    "acquired (snd (main n e)) \<le> length (serial_calls (snd (main n e)))"
    by blast+
qed


subsection \<open>The examples, evaluated\<close>

lemma example_ticks:
  "raises idle = None" "printed idle = []"
  "raises (sends (b # bs)) = None"
  "raises interrupted = Some KeyboardInterrupt"
  "raises unplugged = Some (Exception (lit ''device disconnected''))"
  by (simp_all add: raises_def printed_def idle_def sends_def interrupted_def unplugged_def
      terminal_def)

lemma example_lines:
  "printed (sends [0x48, 0x69, 0x20, 0x0D, 0x0A]) = [[72, 105]]"
  "printed (sends [0x20, 0x0A]) = [[]]"
  by (simp_all add: printed_def sends_def terminal_def utf8_decode.simps rstrip_def isspace_def)

lemma example_ascii:
  "raises (sends_ascii cafe) = Some (Exception (lit ''ascii codec cannot encode character''))"
  "printed (sends_ascii cafe) = []"
  "in_waiting (sends_ascii cafe) = Inr 6" "readline (sends_ascii cafe) = Inr cafe"
  "rstrip (decode_ignore cafe) = [99, 97, 102, 233]"
  "console (sends_ascii cafe) [99, 97, 102, 233] =
     Some (Exception (lit ''ascii codec cannot encode character''))"
  by (simp_all add: raises_def printed_def sends_ascii_def cafe_def ascii_console_def
      utf8_decode.simps IS_CONTINUATION_BYTE_def rstrip_def isspace_def)

lemma example_ports:
  "find_pico_port fs_linux = Some (lit ''/dev/ttyACM0'')"
  "find_pico_port fs_none = None"
  "lit ''/dev/ttyACM0'' \<noteq> []"
  by (simp_all add: find_pico_port_def fs_linux_def fs_none_def lit_def)

lemma example_envs:
  "glob (session t) = fs_linux" "Serial (session t) p b d = None"
  "device (session t) = sends [0x48, 0x69, 0x20, 0x0D, 0x0A] ## idle ## sends [0x20, 0x0A] ## t ## sconst idle"
  "glob busy = fs_linux" "Serial busy p b d = Some (Exception (lit ''Resource busy''))"
  "glob no_board = fs_none"
  by (simp_all add: session_def busy_def no_board_def)

lemma session_quiet:
  "i < 3 \<Longrightarrow> raises (device (session t) !! i) = None"
  "raises (device (session t) !! 3) = raises t"
  "concat (map printed (stake 3 (device (session t)))) = [[72, 105], []]"
  by (auto simp: example_envs example_ticks example_lines less_Suc_eq numeral_3_eq_3)

lemma snth_sconst: "sconst x !! i = x"
  by (induction i) simp_all

lemma session_later: "raises (device (session t) !! (4 + j)) = None"
  by (simp add: example_envs example_ticks snth_sconst numeral_eq_Suc)

lemma session_idle_quiet: "raises (device (session idle) !! i) = None"
proof (cases "i < 4")
  case True
  then have "i < 3 \<or> i = 3" by arith
  then show ?thesis by (auto simp: session_quiet example_ticks)
next
  case False
  then obtain j where "i = 4 + j" by (auto simp: not_less le_iff_add)
  then show ?thesis by (simp only: session_later)
qed

lemma session_found:
  "find_pico_port (glob (session t)) = Some (lit ''/dev/ttyACM0'')"
  "Serial (session t) (lit ''/dev/ttyACM0'') 115200 1 = None"
  by (simp_all add: example_envs example_ports)


lemma garbled_eval:
  "decode_ignore garbled = [72, 105, 32, 10]"
  "kept garbled = [0x48, 0x69, 0x20, 0x0A]"
  "rstrip [72, 105, 32, 10] = [72, 105]"
  by (simp_all add: garbled_def utf8_decode.simps rstrip_def isspace_def)

subsection \<open>Port discovery\<close>

text \<open>
  Claim C1. Port discovery asks for exactly two patterns, \<^verbatim>\<open>/dev/tty.usbmodem*\<close> first and
  \<^verbatim>\<open>/dev/ttyACM*\<close> second. Whatever the file system holds, the result is the first path
  listed under the first pattern when that pattern matches anything, else the first path
  listed under the second pattern when that one matches anything, else \<open>None\<close>; and two
  file systems that agree on the two patterns give the same result.
\<close>

theorem find_pico_port_priority:
  "(g (lit ''/dev/tty.usbmodem*'') \<noteq> [] \<longrightarrow>
      find_pico_port g = Some (hd (g (lit ''/dev/tty.usbmodem*'')))) \<and>
   (g (lit ''/dev/tty.usbmodem*'') = [] \<and> g (lit ''/dev/ttyACM*'') \<noteq> [] \<longrightarrow>
      find_pico_port g = Some (hd (g (lit ''/dev/ttyACM*'')))) \<and>
   (g (lit ''/dev/tty.usbmodem*'') = [] \<and> g (lit ''/dev/ttyACM*'') = [] \<longrightarrow>
      find_pico_port g = None) \<and>
   (g (lit ''/dev/tty.usbmodem*'') = g' (lit ''/dev/tty.usbmodem*'') \<and>
    g (lit ''/dev/ttyACM*'') = g' (lit ''/dev/ttyACM*'') \<longrightarrow>
      find_pico_port g = find_pico_port g')"
  by (simp add: find_pico_port_def split: list.splits)

theorem find_pico_port_priority_witness:
  "find_pico_port fs_mac = Some (lit ''/dev/tty.usbmodem101'') \<and>
   find_pico_port fs_linux = Some (lit ''/dev/ttyACM0'') \<and>
   find_pico_port fs_none = None \<and>
   find_pico_port fs_linux = find_pico_port fs_usb"
proof -
  have a: "find_pico_port fs_mac = Some (lit ''/dev/tty.usbmodem101'')"
    using find_pico_port_priority [of fs_mac fs_mac] by (simp add: fs_mac_def lit_def)
  have b: "find_pico_port fs_linux = Some (lit ''/dev/ttyACM0'')"
    using find_pico_port_priority [of fs_linux fs_linux] by (simp add: fs_linux_def lit_def)
  have c: "find_pico_port fs_none = None"
    using find_pico_port_priority [of fs_none fs_none] by (simp add: fs_none_def)
  have d: "find_pico_port fs_linux = find_pico_port fs_usb"
    using find_pico_port_priority [of fs_linux fs_usb]
    by (auto simp: fs_linux_def fs_usb_def lit_def)
  show ?thesis using a b c d by blast
qed

subsection \<open>No device\<close>

text \<open>
  Claim C3. When port discovery returns \<open>None\<close>, \<open>main\<close> prints
  \<^verbatim>\<open>Error: Pico serial port not found\<close> and raises \<open>SystemExit\<close> with status 1, which is not
  zero; \<^verbatim>\<open>serial.Serial\<close> is never called and no handle is acquired, however long the run is
  observed.
\<close>

theorem main_not_found:
  "find_pico_port (glob e) = None \<Longrightarrow>
   fst (main n e) = Some (Inl (SystemExit 1)) \<and> (1::nat) \<noteq> 0 \<and>
   stdout (snd (main n e)) = [lit ''Error: Pico serial port not found''] \<and>
   serial_calls (snd (main n e)) = [] \<and> acquired (snd (main n e)) = 0"
  by (simp add: main_missing world0_def)

theorem main_not_found_witness:
  "find_pico_port (glob no_board) = None \<and>
   main 7 no_board =
     (Some (Inl (SystemExit 1)),
      \<lparr>stdout = [lit ''Error: Pico serial port not found''], serial_calls = [],
       acquired = 0, released = 0\<rparr>)"
proof -
  have h: "find_pico_port (glob no_board) = None"
    by (simp add: example_envs example_ports)
  have r: "released (snd (main 7 no_board)) = 0"
    by (simp add: main_missing h world0_def)
  show ?thesis
    using h r main_not_found [OF h, of 7]
    by (cases "main 7 no_board") (auto intro: world.equality)
qed

subsection \<open>How the loop ends\<close>

text \<open>
  A pass raises exactly what one of its three calls raises.
\<close>

lemma raises_sources:
  "raises t = Some x \<longleftrightarrow>
     in_waiting t = Inl x \<or>
     (\<exists>m. in_waiting t = Inr m \<and> m \<noteq> 0 \<and> readline t = Inl x) \<or>
     (\<exists>m bs. in_waiting t = Inr m \<and> m \<noteq> 0 \<and> readline t = Inr bs \<and>
        console t (rstrip (decode_ignore bs)) = Some x)"
  by (auto simp: raises_def split: sum.splits if_splits)





text \<open>
  Claim C6. The loop never ends by itself: its result is never a normal end. After \<open>n\<close>
  passes it is still running exactly when none of these passes raised, and when it has
  ended it has ended with what a call of one of the passes raised: \<^verbatim>\<open>in_waiting\<close>,
  \<^verbatim>\<open>readline\<close>, or \<^verbatim>\<open>print\<close> on the line read (an interrupt, or an exception of the device or
  of the console). The same holds for \<open>main\<close> once the port is found and opened: \<open>main\<close> is
  still running after \<open>n\<close> passes exactly when none of them raised.
\<close>

theorem read_loop_unbounded:
  "fst (read_loop n ticks w) \<noteq> Some (Inr ()) \<and>
   (fst (read_loop n ticks w) = None \<longleftrightarrow> (\<forall>i<n. raises (ticks !! i) = None)) \<and>
   (\<forall>r. fst (read_loop n ticks w) = Some r \<longrightarrow>
      (\<exists>k<n. \<exists>x. r = Inl x \<and>
         (in_waiting (ticks !! k) = Inl x \<or>
          (\<exists>m. in_waiting (ticks !! k) = Inr m \<and> m \<noteq> 0 \<and> readline (ticks !! k) = Inl x) \<or>
          (\<exists>m bs. in_waiting (ticks !! k) = Inr m \<and> m \<noteq> 0 \<and> readline (ticks !! k) = Inr bs \<and>
             console (ticks !! k) (rstrip (decode_ignore bs)) = Some x)))) \<and>
   (find_pico_port (glob e) = Some port \<and> port \<noteq> [] \<and> Serial e port 115200 1 = None \<longrightarrow>
      (fst (main n e) = None \<longleftrightarrow> (\<forall>i<n. raises (device e !! i) = None)))"
proof -
  have loop: "fst (read_loop n ticks w) \<noteq> Some (Inr ()) \<and>
   (fst (read_loop n ticks w) = None \<longleftrightarrow> (\<forall>i<n. raises (ticks !! i) = None)) \<and>
   (\<forall>r. fst (read_loop n ticks w) = Some r \<longrightarrow>
      (\<exists>k<n. \<exists>x. r = Inl x \<and> raises (ticks !! k) = Some x))" for ticks w
    using read_loop_cases [of n ticks w] by auto
  have "fst (main n e) = None \<longleftrightarrow> (\<forall>i<n. raises (device e !! i) = None)"
    if "find_pico_port (glob e) = Some port" "port \<noteq> []" "Serial e port 115200 1 = None"
  proof -
    let ?w = "(world0\<lparr>stdout := banner port\<rparr>)\<lparr>serial_calls := [(port, 115200, 1)], acquired := 1\<rparr>"
    have "fst (main n e) = None \<longleftrightarrow> fst (read_loop n (device e) ?w) = None"
      using that
      by (cases "read_loop n (device e) ?w" rule: try_except.cases)
        (simp_all add: main_found with_Serial_def world0_def)
    then show ?thesis using loop [of "device e" ?w] by simp
  qed
  then show ?thesis using loop [of ticks w] by (simp only: raises_sources) blast
qed

theorem read_loop_unbounded_witness:
  "fst (read_loop 50 (sconst idle) world0) = None \<and>
   raises (sconst idle !! 49) = None \<and>
   fst (main 50 (session idle)) = None \<and>
   raises (device (session unplugged) !! 3) = Some (Exception (lit ''device disconnected'')) \<and>
   fst (main 4 (session unplugged)) \<noteq> None \<and>
   raises (device (session (sends_ascii cafe)) !! 3) =
     Some (Exception (lit ''ascii codec cannot encode character'')) \<and>
   fst (main 4 (session (sends_ascii cafe))) \<noteq> None"
proof -
  note idle_loop = read_loop_unbounded
    [of 50 "sconst idle" world0 "session idle" "lit ''/dev/ttyACM0''"]
  note unplug = read_loop_unbounded
    [of 4 "sconst idle" world0 "session unplugged" "lit ''/dev/ttyACM0''"]
  note refused = read_loop_unbounded
    [of 4 "sconst idle" world0 "session (sends_ascii cafe)" "lit ''/dev/ttyACM0''"]
  have a: "\<forall>i<50. raises (sconst idle !! i) = None"
    by (simp add: example_ticks snth_sconst)
  have b: "fst (read_loop 50 (sconst idle) world0) = None"
    using idle_loop a by simp
  have c: "fst (main 50 (session idle)) = None"
    using idle_loop by (simp add: session_found example_envs(2) example_ports session_idle_quiet)
  have d: "\<not> (\<forall>i<4. raises (device (session unplugged) !! i) = None)"
    using session_quiet(2) [of unplugged] by (auto simp: example_ticks intro!: exI [of _ 3])
  have d': "\<not> (\<forall>i<4. raises (device (session (sends_ascii cafe)) !! i) = None)"
    using session_quiet(2) [of "sends_ascii cafe"] by (auto simp: example_ascii intro!: exI [of _ 3])
  have e: "fst (main 4 (session unplugged)) \<noteq> None"
    using unplug d by (simp add: session_found example_envs(2) example_ports)
  have e': "fst (main 4 (session (sends_ascii cafe))) \<noteq> None"
    using refused d' by (simp add: session_found example_envs(2) example_ports)
  have f: "raises (device (session unplugged) !! 3) = Some (Exception (lit ''device disconnected''))"
    by (simp add: session_quiet example_ticks)
  have f': "raises (device (session (sends_ascii cafe)) !! 3) =
      Some (Exception (lit ''ascii codec cannot encode character''))"
    by (simp add: session_quiet example_ascii)
  show ?thesis
    using b c e e' f f' by (simp add: snth_sconst example_ticks)
qed

subsection \<open>The serial handle\<close>

text \<open>
  Claim C7. The handle is acquired by the \<^verbatim>\<open>with\<close> statement and released however the block
  is left: whatever way the body ends (normally, by an interrupt or by an error), the
  block ends the same way with the handle closed. For \<open>main\<close>: once \<open>main\<close> has ended, as
  many handles are released as were acquired, and while it is still running it holds the
  one handle it opened.
\<close>

theorem serial_released:
  "(Serial e port b t = None \<and>
    body (w\<lparr>serial_calls := serial_calls w @ [(port, b, t)], acquired := Suc (acquired w)\<rparr>)
      = (Some r, w2) \<longrightarrow>
    with_Serial e port b t body w = (Some r, w2\<lparr>released := Suc (released w2)\<rparr>)) \<and>
   (fst (main n e) \<noteq> None \<longrightarrow> released (snd (main n e)) = acquired (snd (main n e))) \<and>
   (fst (main n e) = None \<longrightarrow> acquired (snd (main n e)) = 1 \<and> released (snd (main n e)) = 0)"
  using main_world(1,2) [of n e] by (simp add: with_Serial_def)

theorem serial_released_witness:
  "with_Serial (session interrupted) (lit ''/dev/ttyACM0'') 115200 1 (\<lambda>w. (Some (Inr ()), w)) world0 =
     (Some (Inr ()),
      \<lparr>stdout = [], serial_calls = [(lit ''/dev/ttyACM0'', 115200, 1)], acquired = 1, released = 1\<rparr>) \<and>
   fst (main 4 (session interrupted)) = Some (Inr ()) \<and>
   acquired (snd (main 4 (session interrupted))) = 1 \<and>
   released (snd (main 4 (session interrupted))) = 1 \<and>
   fst (main 4 (session unplugged)) = Some (Inr ()) \<and>
   released (snd (main 4 (session unplugged))) = 1 \<and>
   fst (main 3 (session interrupted)) = None \<and>
   released (snd (main 3 (session interrupted))) = 0"
proof -
  have q: "\<And>i. i < 3 \<Longrightarrow> raises (device (session t) !! i) = None" for t
    by (simp add: session_quiet)
  have a: "main 4 (session interrupted) =
      (Some (Inr ()),
       \<lparr>stdout = banner (lit ''/dev/ttyACM0'') @ [[72, 105], [], [10, 10] @ lit ''Exiting...''],
        serial_calls = [(lit ''/dev/ttyACM0'', 115200, 1)], acquired = 1, released = 1\<rparr>)"
    using main_raised [where e = "session interrupted" and port = "lit ''/dev/ttyACM0''" and k = 3
        and x = KeyboardInterrupt and n = 4]
    by (simp add: session_found example_envs(2) example_ports session_quiet example_ticks emit_def)
  have b: "main 4 (session unplugged) =
      (Some (Inr ()),
       \<lparr>stdout = banner (lit ''/dev/ttyACM0'') @ [[72, 105], [], lit ''Error: '' @ lit ''device disconnected''],
        serial_calls = [(lit ''/dev/ttyACM0'', 115200, 1)], acquired = 1, released = 1\<rparr>)"
    using main_raised [where e = "session unplugged" and port = "lit ''/dev/ttyACM0''" and k = 3
        and x = "Exception (lit ''device disconnected'')" and n = 4]
    by (simp add: session_found example_envs(2) example_ports session_quiet example_ticks emit_def)
  have c: "fst (main 3 (session interrupted)) = None"
    using main_running [where e = "session interrupted" and port = "lit ''/dev/ttyACM0''" and n = 3]
    by (simp add: session_found example_envs(2) example_ports session_quiet)
  have d: "Serial (session interrupted) (lit ''/dev/ttyACM0'') 115200 1 = None"
    by (rule session_found)
  show ?thesis
    using serial_released [where e = "session interrupted" and port = "lit ''/dev/ttyACM0''"
        and b = 115200 and t = 1 and body = "\<lambda>w. (Some (Inr ()), w)" and w = world0 and r = "Inr ()"
        and n = 3]
      a b c d
    by (simp add: world0_def)
qed

text \<open>
  Claim C8. Whatever the environment and however long the run, every call of
  \<^verbatim>\<open>serial.Serial\<close> has the baud rate 115200 and the timeout 1; there is at most one call,
  and when a handle was acquired the call was made with the port that discovery found.
\<close>

theorem serial_settings_fixed:
  "(\<forall>c\<in>set (serial_calls (snd (main n e))). snd c = (115200, 1)) \<and>
   length (serial_calls (snd (main n e))) \<le> 1 \<and>
   (acquired (snd (main n e)) \<noteq> 0 \<longrightarrow>
      (\<exists>port. find_pico_port (glob e) = Some port \<and>
         serial_calls (snd (main n e)) = [(port, 115200, 1)]))"
  using main_world(3,4) [of n e] by auto

theorem serial_settings_fixed_witness:
  "serial_calls (snd (main 3 (session idle))) = [(lit ''/dev/ttyACM0'', 115200, 1)] \<and>
   acquired (snd (main 3 (session idle))) = 1 \<and>
   snd (lit ''/dev/ttyACM0'', 115200 :: nat, 1 :: nat) = (115200, 1)"
proof -
  have q: "\<And>i. i < 3 \<Longrightarrow> raises (device (session idle) !! i) = None"
    by (simp add: session_quiet)
  have a: "acquired (snd (main 3 (session idle))) = 1"
    using main_running [where e = "session idle" and port = "lit ''/dev/ttyACM0''" and n = 3]
    by (simp add: session_found example_envs(2) example_ports session_quiet)
  show ?thesis
    using a serial_settings_fixed [of 3 "session idle"] by (simp add: session_found)
qed



subsection \<open>The lines read\<close>

text \<open>
  Claim C2. Whenever a pass of the loop reads bytes, the line handed to \<^verbatim>\<open>print\<close> is the
  bytes decoded and cut off at the end of the whitespace. When the console takes the
  line, the loop goes on with the line printed, and the line stays in the output at that
  place however the run goes on; when \<^verbatim>\<open>print\<close> raises on it, the loop ends with what
  \<^verbatim>\<open>print\<close> raised and nothing is printed. The decoding cannot fail: the bytes kept are a
  subsequence of the bytes read, the strict decoder accepts them with the same result (so
  that only invalid bytes were dropped), and bytes that are valid UTF-8 are decoded in
  full. The trimming removes whitespace only, and all of it at the end of the line.
\<close>

theorem read_loop_prints_decoded_line:
  assumes "in_waiting (shd ticks) = Inr k" and "k \<noteq> 0" and "readline (shd ticks) = Inr bs"
  shows "(console (shd ticks) (rstrip (decode_ignore bs)) = None \<longrightarrow>
      read_loop (Suc n) ticks w =
        read_loop n (stl ticks) (w\<lparr>stdout := stdout w @ [rstrip (decode_ignore bs)]\<rparr>) \<and>
      prefix (stdout w @ [rstrip (decode_ignore bs)])
        (stdout (snd (read_loop (Suc n) ticks w)))) \<and>
    (\<forall>x. console (shd ticks) (rstrip (decode_ignore bs)) = Some x \<longrightarrow>
      read_loop (Suc n) ticks w = (Some (Inl x), w)) \<and>
    subseq (kept bs) bs \<and>
    utf8_strict (kept bs) = Some (decode_ignore bs) \<and>
    (\<forall>cs. utf8_strict bs = Some cs \<longrightarrow> decode_ignore bs = cs) \<and>
    (\<exists>ws. decode_ignore bs = rstrip (decode_ignore bs) @ ws \<and> (\<forall>c\<in>set ws. isspace c)) \<and>
    (rstrip (decode_ignore bs) \<noteq> [] \<longrightarrow> \<not> isspace (last (rstrip (decode_ignore bs))))"
proof -
  let ?line = "rstrip (decode_ignore bs)"
  let ?w = "w\<lparr>stdout := stdout w @ [?line]\<rparr>"
  note body = loop_body_line [OF assms, of w]
  have taken: "read_loop (Suc n) ticks w = read_loop n (stl ticks) ?w \<and>
      prefix (stdout w @ [?line]) (stdout (snd (read_loop (Suc n) ticks w)))"
    if ok: "console (shd ticks) ?line = None"
  proof -
    have step: "read_loop (Suc n) ticks w = read_loop n (stl ticks) ?w"
      by (simp add: body ok emit_def)
    obtain ls where "snd (read_loop n (stl ticks) ?w) = ?w\<lparr>stdout := stdout ?w @ ls\<rparr>"
      using read_loop_world by blast
    then have "prefix (stdout w @ [?line]) (stdout (snd (read_loop (Suc n) ticks w)))"
      unfolding step by simp
    then show ?thesis using step by simp
  qed
  have refused: "read_loop (Suc n) ticks w = (Some (Inl x), w)"
    if "console (shd ticks) ?line = Some x" for x
    by (simp add: body that)
  have tail: "\<exists>ws. decode_ignore bs = ?line @ ws \<and> (\<forall>c\<in>set ws. isspace c)"
    using rstrip_split [of "decode_ignore bs"] rstrip_tail_space [of _ "decode_ignore bs"]
    by blast
  show ?thesis
    using taken refused tail kept_subseq [of bs] utf8_strict_kept [of bs]
      utf8_strict_decode_ignore [of bs] rstrip_last [of "decode_ignore bs"]
    by blast
qed

theorem read_loop_prints_decoded_line_witness:
  "in_waiting (shd (sends garbled ## sconst idle)) = Inr 5 \<and>
   readline (shd (sends garbled ## sconst idle)) = Inr garbled \<and>
   console (shd (sends garbled ## sconst idle)) [72, 105] = None \<and>
   read_loop 1 (sends garbled ## sconst idle) world0 = (None, world0\<lparr>stdout := [[72, 105]]\<rparr>) \<and>
   decode_ignore garbled = [72, 105, 32, 10] \<and>
   utf8_strict [0x48, 0x69, 0x20, 0x0A] = Some [72, 105, 32, 10] \<and>
   subseq [0x48, 0x69, 0x20, 0x0A] garbled \<and>
   console (shd (sends_ascii cafe ## sconst idle)) [99, 97, 102, 233] =
     Some (Exception (lit ''ascii codec cannot encode character'')) \<and>
   read_loop 1 (sends_ascii cafe ## sconst idle) world0 =
     (Some (Inl (Exception (lit ''ascii codec cannot encode character''))), world0)"
proof -
  have a: "in_waiting (shd (sends garbled ## sconst idle)) = Inr 5"
    by (simp add: sends_def garbled_def)
  have b: "readline (shd (sends garbled ## sconst idle)) = Inr garbled"
    by (simp add: sends_def)
  have c: "(5::nat) \<noteq> 0" "(6::nat) \<noteq> 0" by simp_all
  have d: "console (shd (sends garbled ## sconst idle)) [72, 105] = None"
    by (simp add: sends_def terminal_def)
  have a': "in_waiting (shd (sends_ascii cafe ## sconst idle)) = Inr 6"
    by (simp add: example_ascii)
  have b': "readline (shd (sends_ascii cafe ## sconst idle)) = Inr cafe"
    by (simp add: example_ascii)
  have d': "console (shd (sends_ascii cafe ## sconst idle)) [99, 97, 102, 233] =
      Some (Exception (lit ''ascii codec cannot encode character''))"
    by (simp add: example_ascii)
  have first: "read_loop 1 (sends garbled ## sconst idle) world0 = (None, world0\<lparr>stdout := [[72, 105]]\<rparr>) \<and>
      decode_ignore garbled = [72, 105, 32, 10] \<and>
      utf8_strict [0x48, 0x69, 0x20, 0x0A] = Some [72, 105, 32, 10] \<and>
      subseq [0x48, 0x69, 0x20, 0x0A] garbled"
    using d read_loop_prints_decoded_line [OF a c(1) b, of 0 world0]
    by (simp add: garbled_eval world0_def)
  have second: "read_loop 1 (sends_ascii cafe ## sconst idle) world0 =
      (Some (Inl (Exception (lit ''ascii codec cannot encode character''))), world0)"
    using d' read_loop_prints_decoded_line [OF a' c(2) b', of 0 world0]
    by (simp add: example_ascii)
  show ?thesis
    using a b d d' first second by simp
qed

text \<open>
  Claim C10. A pass that reads bytes hands the line to \<^verbatim>\<open>print\<close> whatever the line is: what
  the pass does depends on the answer of the console only, never on the line being empty.
  When the console takes the line the output grows by exactly one entry, and by the empty
  line when the decoded text is empty or whitespace only. Nothing is taken from the front
  of a line: everything up to a character that is not whitespace stays as it is, so the
  whitespace a line with any other character begins with is printed unchanged.
\<close>

theorem blank_line_printed:
  assumes "in_waiting t = Inr k" and "k \<noteq> 0" and "readline t = Inr bs"
  shows "loop_body t w =
      (case console t (rstrip (decode_ignore bs)) of
         Some x \<Rightarrow> (Inl x, w)
       | None \<Rightarrow> (Inr (), w\<lparr>stdout := stdout w @ [rstrip (decode_ignore bs)]\<rparr>)) \<and>
    (console t (rstrip (decode_ignore bs)) = None \<longrightarrow>
       length (stdout (snd (loop_body t w))) = Suc (length (stdout w))) \<and>
    (rstrip (decode_ignore bs) = [] \<and> console t [] = None \<longrightarrow>
       stdout (snd (loop_body t w)) = stdout w @ [[]]) \<and>
    (rstrip (decode_ignore bs) = [] \<longleftrightarrow> (\<forall>c\<in>set (decode_ignore bs). isspace c)) \<and>
    (\<forall>xs c ys. decode_ignore bs = xs @ c # ys \<and> \<not> isspace c \<longrightarrow>
       rstrip (decode_ignore bs) = xs @ rstrip (c # ys)) \<and>
    (rstrip (decode_ignore bs) \<noteq> [] \<longrightarrow>
       takeWhile isspace (rstrip (decode_ignore bs)) = takeWhile isspace (decode_ignore bs))"
proof -
  have body: "loop_body t w =
      (case console t (rstrip (decode_ignore bs)) of
         Some x \<Rightarrow> (Inl x, w)
       | None \<Rightarrow> (Inr (), w\<lparr>stdout := stdout w @ [rstrip (decode_ignore bs)]\<rparr>))"
    by (simp add: loop_body_line [OF assms] emit_def split: option.splits)
  have one: "length (stdout (snd (loop_body t w))) = Suc (length (stdout w))"
    if "console t (rstrip (decode_ignore bs)) = None"
    by (simp add: body that)
  have blank: "stdout (snd (loop_body t w)) = stdout w @ [[]]"
    if "rstrip (decode_ignore bs) = []" "console t [] = None"
    by (simp add: body that)
  have front: "\<forall>xs c ys. decode_ignore bs = xs @ c # ys \<and> \<not> isspace c \<longrightarrow>
       rstrip (decode_ignore bs) = xs @ rstrip (c # ys)"
    by (simp add: rstrip_keeps_front)
  show ?thesis
    using body one blank front rstrip_all_space [of "decode_ignore bs"]
      rstrip_leading [of "decode_ignore bs"]
    by blast
qed

theorem blank_line_printed_witness:
  "in_waiting (sends [0x20, 0x0A]) = Inr 2 \<and> readline (sends [0x20, 0x0A]) = Inr [0x20, 0x0A] \<and>
   console (sends [0x20, 0x0A]) [] = None \<and>
   loop_body (sends [0x20, 0x0A]) world0 = (Inr (), world0\<lparr>stdout := [[]]\<rparr>) \<and>
   loop_body (sends [0x20, 0x20, 0x48, 0x69, 0x20, 0x0A]) world0 =
     (Inr (), world0\<lparr>stdout := [[32, 32, 72, 105]]\<rparr>) \<and>
   loop_body (sends_ascii cafe) world0 =
     (Inl (Exception (lit ''ascii codec cannot encode character'')), world0)"
proof -
  have a: "in_waiting (sends [0x20, 0x0A]) = Inr 2" "readline (sends [0x20, 0x0A]) = Inr [0x20, 0x0A]"
    "console (sends [0x20, 0x0A]) [] = None"
    by (simp_all add: sends_def terminal_def)
  have b: "in_waiting (sends [0x20, 0x20, 0x48, 0x69, 0x20, 0x0A]) = Inr 6"
    "readline (sends [0x20, 0x20, 0x48, 0x69, 0x20, 0x0A]) = Inr [0x20, 0x20, 0x48, 0x69, 0x20, 0x0A]"
    by (simp_all add: sends_def)
  have c: "(2::nat) \<noteq> 0" "(6::nat) \<noteq> 0" by simp_all
  have first: "loop_body (sends [0x20, 0x0A]) world0 = (Inr (), world0\<lparr>stdout := [[]]\<rparr>)"
    using blank_line_printed [OF a(1) c(1) a(2), of world0]
    by (simp add: sends_def terminal_def world0_def utf8_decode.simps rstrip_def isspace_def)
  have second: "loop_body (sends [0x20, 0x20, 0x48, 0x69, 0x20, 0x0A]) world0 =
      (Inr (), world0\<lparr>stdout := [[32, 32, 72, 105]]\<rparr>)"
    using blank_line_printed [OF b(1) c(2) b(2), of world0]
    by (simp add: sends_def terminal_def world0_def utf8_decode.simps rstrip_def isspace_def)
  have third: "loop_body (sends_ascii cafe) world0 =
      (Inl (Exception (lit ''ascii codec cannot encode character'')), world0)"
    using blank_line_printed [OF example_ascii(3) c(2) example_ascii(4), of world0]
    by (simp add: example_ascii)
  show ?thesis
    using a first second third by simp
qed

end
